theory Spec2Isabelle
  imports Complex_Main
begin

section \<open>JavaScript numbers\<close>

text \<open>
  The calculator works on JavaScript Number values, that is IEEE 754 binary64.  A number is
  either NaN, an infinity with its sign, or a finite value given by its sign and its
  magnitude (a non-negative real that is a multiple of a power of two).  The flag is
  \<open>True\<close> for a negative sign, so \<open>Finite True 0\<close> is the negative zero.  Equality of
  this type is sameness of values in the sense of \<open>Object.is\<close>: one NaN, two zeros.
\<close>

datatype number = NaN | Infinity bool | Finite bool real

text \<open>Number of binary digits of a natural number.\<close>

fun bits :: "nat \<Rightarrow> nat" where
  "bits n = (if n = 0 then 0 else Suc (bits (n div 2)))"

declare bits.simps [simp del]

definition pow2 :: "int \<Rightarrow> real" where
  "pow2 e = (if 0 \<le> e then 2 ^ nat e else 1 / 2 ^ nat (- e))"

text \<open>The binary exponent of a positive real: \<open>pow2 (ilog2 m) \<le> m < pow2 (ilog2 m + 1)\<close>.\<close>

definition ilog2 :: "real \<Rightarrow> int" where
  "ilog2 m = (if 1 \<le> m then int (bits (nat \<lfloor>m\<rfloor>)) - 1
              else - int (bits (nat (\<lceil>1 / m\<rceil> - 1))))"

text \<open>Rounding to the nearest integer, a tie going to the even neighbour.\<close>

definition round_half_even :: "real \<Rightarrow> int" where
  "round_half_even q = (let f = \<lfloor>q\<rfloor>; r = q - of_int f in
     if r < 1 / 2 then f else if 1 / 2 < r then f + 1 else if even f then f else f + 1)"

text \<open>
  Rounding a magnitude to the binary64 grid: 53 significant bits, the spacing never finer
  than \<open>2^-1074\<close> (the subnormal range starts below \<open>2^-1022\<close>).
\<close>

definition round_mag :: "real \<Rightarrow> real" where
  "round_mag m = (let u = pow2 (max (ilog2 m) (- 1022) - 52)
                  in of_int (round_half_even (m / u)) * u)"

text \<open>A rounded magnitude of \<open>2^1024\<close> or more overflows to the infinity of that sign.\<close>

definition round_to_double :: "bool \<Rightarrow> real \<Rightarrow> number" where
  "round_to_double s m = (let r = round_mag m in if 2 ^ 1024 \<le> r then Infinity s else Finite s r)"

text \<open>A decimal literal of the source text denotes the nearest binary64 value.\<close>

definition js_lit :: "real \<Rightarrow> number" where
  "js_lit q = round_to_double (q < 0) \<bar>q\<bar>"

text \<open>The operators \<open>*\<close> and \<open>/\<close> on numbers.\<close>

fun js_mul :: "number \<Rightarrow> number \<Rightarrow> number" where
  "js_mul NaN y = NaN"
| "js_mul x NaN = NaN"
| "js_mul (Infinity s) (Infinity t) = Infinity (s \<noteq> t)"
| "js_mul (Infinity s) (Finite t b) = (if b = 0 then NaN else Infinity (s \<noteq> t))"
| "js_mul (Finite s a) (Infinity t) = (if a = 0 then NaN else Infinity (s \<noteq> t))"
| "js_mul (Finite s a) (Finite t b) = round_to_double (s \<noteq> t) (a * b)"

fun js_div :: "number \<Rightarrow> number \<Rightarrow> number" where
  "js_div NaN y = NaN"
| "js_div x NaN = NaN"
| "js_div (Infinity s) (Infinity t) = NaN"
| "js_div (Infinity s) (Finite t b) = Infinity (s \<noteq> t)"
| "js_div (Finite s a) (Infinity t) = Finite (s \<noteq> t) 0"
| "js_div (Finite s a) (Finite t b) =
     (if b = 0 then (if a = 0 then NaN else Infinity (s \<noteq> t))
      else round_to_double (s \<noteq> t) (a / b))"

text \<open>
  The comparison of two numbers: \<open>None\<close> is the undefined outcome that a NaN operand
  gives; the two zeros compare equal.
\<close>

definition signed :: "bool \<Rightarrow> real \<Rightarrow> real" where
  "signed s a = (if s then - a else a)"

fun js_lessThan :: "number \<Rightarrow> number \<Rightarrow> bool option" where
  "js_lessThan NaN y = None"
| "js_lessThan x NaN = None"
| "js_lessThan (Infinity s) (Infinity t) = Some (s \<and> \<not> t)"
| "js_lessThan (Infinity s) (Finite t b) = Some s"
| "js_lessThan (Finite s a) (Infinity t) = Some (\<not> t)"
| "js_lessThan (Finite s a) (Finite t b) = Some (signed s a < signed t b)"

text \<open>\<open>x < y\<close> and \<open>x >= y\<close>; both are false when the comparison is undefined.\<close>

definition js_lt :: "number \<Rightarrow> number \<Rightarrow> bool" where
  "js_lt x y = (js_lessThan x y = Some True)"

definition js_ge :: "number \<Rightarrow> number \<Rightarrow> bool" where
  "js_ge x y = (js_lessThan x y = Some False)"

section \<open>The calculation of the sorbent capture component\<close>

text \<open>The eleven state variables of \<open>Co2FilterCalculator\<close>.\<close>

record input_parameters =
  filterWidth :: number
  filterLength :: number
  filterDepthL :: number
  airflowQ :: number
  dailyRuntime :: number
  maxStaticPressure :: number
  sorbentCaptureEfficiencyEta :: number
  sorbentWorkingCapacityCw :: number
  initialCo2ConcentrationCin :: number
  sorbentMassFraction :: number
  maxCartridgeWeight :: number

text \<open>The object returned by the memoised computation.\<close>

record derived_outputs =
  frontalAreaA :: number
  airVelocityV :: number
  residenceTimeTau :: number
  hourlyCo2CaptureRateY :: number
  requiredSorbentMass :: number
  totalWeeklyCo2Capture :: number
  totalFilterWeight :: number
  weeklyCartridgeSwaps :: number

text \<open>The body of the \<open>useMemo\<close> callback, constant by constant.\<close>

definition calculations :: "input_parameters \<Rightarrow> derived_outputs" where
  "calculations i =
    (let frontalAreaA' = js_mul (js_mul (filterWidth i) (js_lit (254 / 10000)))
                                (js_mul (filterLength i) (js_lit (254 / 10000)));
         airVelocityV' = js_div (airflowQ i) frontalAreaA';
         residenceTimeTau' = js_div (filterDepthL i) airVelocityV';
         hourlyCo2CaptureRateY' =
           js_mul (js_mul (js_mul (airflowQ i) (initialCo2ConcentrationCin i))
                          (sorbentCaptureEfficiencyEta i)) (js_lit 3600);
         totalWeeklyCo2Capture' = js_mul (js_mul hourlyCo2CaptureRateY' (dailyRuntime i)) (js_lit 7);
         requiredSorbentMass' = js_div totalWeeklyCo2Capture' (sorbentWorkingCapacityCw i);
         totalFilterWeight' = js_div requiredSorbentMass' (sorbentMassFraction i);
         weeklyCartridgeSwaps' = js_div totalFilterWeight' (maxCartridgeWeight i)
     in \<lparr> frontalAreaA = frontalAreaA',
          airVelocityV = airVelocityV',
          residenceTimeTau = residenceTimeTau',
          hourlyCo2CaptureRateY = hourlyCo2CaptureRateY',
          requiredSorbentMass = requiredSorbentMass',
          totalWeeklyCo2Capture = totalWeeklyCo2Capture',
          totalFilterWeight = totalFilterWeight',
          weeklyCartridgeSwaps = weeklyCartridgeSwaps' \<rparr>)"

text \<open>The initial values given to \<open>useState\<close>.\<close>

definition initial_inputs :: input_parameters where
  "initial_inputs =
    \<lparr> filterWidth = js_lit 20,
      filterLength = js_lit 20,
      filterDepthL = js_lit (1 / 10),
      airflowQ = js_lit (47 / 100),
      dailyRuntime = js_lit 6,
      maxStaticPressure = js_lit 80,
      sorbentCaptureEfficiencyEta = js_lit (18 / 1000),
      sorbentWorkingCapacityCw = js_lit (8 / 100),
      initialCo2ConcentrationCin = js_lit (7 / 10000),
      sorbentMassFraction = js_lit (7 / 10),
      maxCartridgeWeight = js_lit 10 \<rparr>"

text \<open>
  The \<open>values\<close> lists of the ten input controls.  There is no control for
  \<open>maxStaticPressure\<close>.
\<close>

definition presets :: "input_parameters \<Rightarrow> bool" where
  "presets i \<longleftrightarrow>
     filterWidth i \<in> set [js_lit 20, js_lit 24, js_lit 25] \<and>
     filterLength i \<in> set [js_lit 20, js_lit 24, js_lit 25] \<and>
     filterDepthL i \<in> set [js_lit (1 / 10), js_lit (12 / 100), js_lit (15 / 100)] \<and>
     airflowQ i \<in> set [js_lit (47 / 100), js_lit (57 / 100), js_lit (66 / 100)] \<and>
     dailyRuntime i \<in> set [js_lit 6, js_lit 8, js_lit 10] \<and>
     sorbentCaptureEfficiencyEta i \<in> set [js_lit (18 / 1000), js_lit (22 / 1000), js_lit (25 / 1000)] \<and>
     sorbentWorkingCapacityCw i \<in> set [js_lit (8 / 100), js_lit (1 / 10), js_lit (12 / 100)] \<and>
     initialCo2ConcentrationCin i \<in> set [js_lit (7 / 10000), js_lit (8 / 10000), js_lit (9 / 10000)] \<and>
     sorbentMassFraction i \<in> set [js_lit (7 / 10), js_lit (75 / 100), js_lit (8 / 10)] \<and>
     maxCartridgeWeight i \<in> set [js_lit 10, js_lit (125 / 10), js_lit 15]"

text \<open>
  Two more selections of presets: the initial one with the filter width set to 25, and one
  with a runtime of 10 hours, a concentration of 0.0009 and a mass fraction of 0.8.
\<close>

definition wide_inputs :: input_parameters where
  "wide_inputs = initial_inputs\<lparr>filterWidth := js_lit 25\<rparr>"

definition heavy_use_inputs :: input_parameters where
  "heavy_use_inputs =
     initial_inputs\<lparr>dailyRuntime := js_lit 10,
                    initialCo2ConcentrationCin := js_lit (9 / 10000),
                    sorbentMassFraction := js_lit (8 / 10)\<rparr>"

subsection \<open>The formula chain as the specification writes it\<close>

text \<open>
  Each quantity of the specification as a function of the inputs, a later one defined
  from the earlier ones; products associate to the left as the formulas are read.
\<close>

definition spec_frontalArea :: "input_parameters \<Rightarrow> number" where
  "spec_frontalArea i =
     js_mul (js_mul (filterWidth i) (js_lit (254 / 10000))) (js_mul (filterLength i) (js_lit (254 / 10000)))"

definition spec_airVelocity :: "input_parameters \<Rightarrow> number" where
  "spec_airVelocity i = js_div (airflowQ i) (spec_frontalArea i)"

definition spec_residenceTime :: "input_parameters \<Rightarrow> number" where
  "spec_residenceTime i = js_div (filterDepthL i) (spec_airVelocity i)"

definition spec_hourlyCo2CaptureRate :: "input_parameters \<Rightarrow> number" where
  "spec_hourlyCo2CaptureRate i =
     js_mul (js_mul (js_mul (airflowQ i) (initialCo2ConcentrationCin i)) (sorbentCaptureEfficiencyEta i))
            (js_lit 3600)"

definition spec_totalWeeklyCo2Capture :: "input_parameters \<Rightarrow> number" where
  "spec_totalWeeklyCo2Capture i = js_mul (js_mul (spec_hourlyCo2CaptureRate i) (dailyRuntime i)) (js_lit 7)"

definition spec_requiredSorbentMass :: "input_parameters \<Rightarrow> number" where
  "spec_requiredSorbentMass i = js_div (spec_totalWeeklyCo2Capture i) (sorbentWorkingCapacityCw i)"

definition spec_totalFilterWeight :: "input_parameters \<Rightarrow> number" where
  "spec_totalFilterWeight i = js_div (spec_requiredSorbentMass i) (sorbentMassFraction i)"

definition spec_weeklyCartridgeSwaps :: "input_parameters \<Rightarrow> number" where
  "spec_weeklyCartridgeSwaps i = js_div (spec_totalFilterWeight i) (maxCartridgeWeight i)"

subsection \<open>Display of the headline output\<close>

text \<open>
  The string that \<open>toFixed(1)\<close> returns, by its parts.  For a finite number below
  \<open>10^21\<close> in magnitude it is a decimal numeral with one fractional digit:
  \<open>Decimal s n\<close> stands for the digits of \<open>n div 10\<close>, a point and the digit
  \<open>n mod 10\<close>, after a minus sign when \<open>s\<close> holds.  For the other numbers
  \<open>toFixed\<close> returns the number's ordinary string form, \<open>Verbatim x\<close>, which reads
  back as \<open>x\<close>.
\<close>

datatype fixed_string = Decimal bool nat | Verbatim number

text \<open>
  \<open>toFixed(1)\<close>: the sign is taken off when the value is below zero, and of the integers
  \<open>n\<close> with \<open>n / 10\<close> nearest to the exact value, the larger one is taken.
\<close>

fun toFixed1 :: "number \<Rightarrow> fixed_string" where
  "toFixed1 NaN = Verbatim NaN"
| "toFixed1 (Infinity s) = Verbatim (Infinity s)"
| "toFixed1 (Finite s m) =
     (if 10 ^ 21 \<le> m then Verbatim (Finite s m)
      else Decimal (s \<and> 0 < m) (nat \<lfloor>m * 10 + 1 / 2\<rfloor>))"

text \<open>The number a string converts to when an operator needs a number.\<close>

fun string_to_number :: "fixed_string \<Rightarrow> number" where
  "string_to_number (Decimal s n) = round_to_double s (real n / 10)"
| "string_to_number (Verbatim x) = x"

text \<open>The values that reach \<open>getStatusClass\<close>: a number, or a string from \<open>toFixed\<close>.\<close>

datatype js_value = Num number | Str fixed_string

fun to_number :: "js_value \<Rightarrow> number" where
  "to_number (Num x) = x"
| "to_number (Str t) = string_to_number t"

definition getStatusClass :: "js_value \<Rightarrow> string" where
  "getStatusClass val =
     (if js_ge (to_number val) (js_lit 3) then ''bad''
      else if js_ge (to_number val) (js_lit 2) then ''okay''
      else if js_ge (to_number val) (js_lit 1) then ''good''
      else ''great'')"

text \<open>
  \<open>FinalOutputDisplay\<close> computes its class from the \<open>value\<close> it is handed, and the
  component hands it \<open>calculations.weeklyCartridgeSwaps.toFixed(1)\<close>.
\<close>

definition displayed_class :: "number \<Rightarrow> string" where
  "displayed_class x = getStatusClass (Str (toFixed1 x))"

definition statusClass :: "derived_outputs \<Rightarrow> string" where
  "statusClass c = displayed_class (weeklyCartridgeSwaps c)"

text \<open>
  The classification as the specification words it, on a real value: \<open>>= 3\<close> is bad,
  \<open>>= 2\<close> and \<open>< 3\<close> is okay, \<open>>= 1\<close> and \<open>< 2\<close> is good, \<open>< 1\<close> is great.
\<close>

definition spec_classify :: "real \<Rightarrow> string" where
  "spec_classify v =
     (if 3 \<le> v then ''bad''
      else if 2 \<le> v \<and> v < 3 then ''okay''
      else if 1 \<le> v \<and> v < 2 then ''good''
      else ''great'')"

subsection \<open>The memoised computation inside the component\<close>

text \<open>
  The dependency list of \<open>useMemo\<close>, and the component's state: the state variables and
  the memo cell, which holds the dependencies and the result of the last computation.
\<close>

definition deps :: "input_parameters \<Rightarrow> number list" where
  "deps i = [filterWidth i, filterLength i, filterDepthL i, airflowQ i, dailyRuntime i,
             sorbentCaptureEfficiencyEta i, sorbentWorkingCapacityCw i,
             initialCo2ConcentrationCin i, sorbentMassFraction i, maxCartridgeWeight i]"

record component =
  vars :: input_parameters
  memo :: "(number list \<times> derived_outputs) option"

text \<open>\<open>useMemo\<close> computes anew unless every dependency is the same value as last time.\<close>

definition useMemo :: "(number list \<times> derived_outputs) option \<Rightarrow> input_parameters \<Rightarrow> derived_outputs" where
  "useMemo cell i =
     (case cell of
        None \<Rightarrow> calculations i
      | Some (d, v) \<Rightarrow> if d = deps i then v else calculations i)"

definition render :: "component \<Rightarrow> derived_outputs \<times> component" where
  "render c = (let v = useMemo (memo c) (vars c) in (v, c\<lparr>memo := Some (deps (vars c), v)\<rparr>))"

text \<open>The ten input controls call the setter of their state variable with the chosen value.\<close>

datatype event =
    SetFilterWidth number
  | SetFilterLength number
  | SetFilterDepthL number
  | SetAirflowQ number
  | SetDailyRuntime number
  | SetSorbentCaptureEfficiencyEta number
  | SetSorbentWorkingCapacityCw number
  | SetInitialCo2ConcentrationCin number
  | SetSorbentMassFraction number
  | SetMaxCartridgeWeight number

fun update :: "event \<Rightarrow> input_parameters \<Rightarrow> input_parameters" where
  "update (SetFilterWidth v) i = i\<lparr>filterWidth := v\<rparr>"
| "update (SetFilterLength v) i = i\<lparr>filterLength := v\<rparr>"
| "update (SetFilterDepthL v) i = i\<lparr>filterDepthL := v\<rparr>"
| "update (SetAirflowQ v) i = i\<lparr>airflowQ := v\<rparr>"
| "update (SetDailyRuntime v) i = i\<lparr>dailyRuntime := v\<rparr>"
| "update (SetSorbentCaptureEfficiencyEta v) i = i\<lparr>sorbentCaptureEfficiencyEta := v\<rparr>"
| "update (SetSorbentWorkingCapacityCw v) i = i\<lparr>sorbentWorkingCapacityCw := v\<rparr>"
| "update (SetInitialCo2ConcentrationCin v) i = i\<lparr>initialCo2ConcentrationCin := v\<rparr>"
| "update (SetSorbentMassFraction v) i = i\<lparr>sorbentMassFraction := v\<rparr>"
| "update (SetMaxCartridgeWeight v) i = i\<lparr>maxCartridgeWeight := v\<rparr>"

text \<open>A state change is followed by a render; the component starts with an empty memo cell.\<close>

definition dispatch :: "event \<Rightarrow> component \<Rightarrow> component" where
  "dispatch ev c = snd (render (c\<lparr>vars := update ev (vars c)\<rparr>))"

definition mount :: component where
  "mount = snd (render \<lparr>vars = initial_inputs, memo = None\<rparr>)"

definition run :: "event list \<Rightarrow> component" where
  "run evs = fold dispatch evs mount"

subsection \<open>Auxiliary predicates\<close>

text \<open>A positive finite number whose value lies between two bounds.\<close>

definition in_range :: "real \<Rightarrow> real \<Rightarrow> number \<Rightarrow> bool" where
  "in_range lo hi x = (case x of Finite s r \<Rightarrow> \<not> s \<and> lo \<le> r \<and> r \<le> hi | _ \<Rightarrow> False)"

definition is_finite :: "number \<Rightarrow> bool" where
  "is_finite x = (case x of Finite s r \<Rightarrow> True | _ \<Rightarrow> False)"

definition is_zero :: "number \<Rightarrow> bool" where
  "is_zero x = (case x of Finite s r \<Rightarrow> r = 0 | _ \<Rightarrow> False)"

text \<open>
  \<open>agrees d v x\<close>: the number \<open>x\<close> is finite and, rounded to \<open>d\<close> decimal places, is
  the decimal \<open>v\<close>; that is, it differs from \<open>v\<close> by at most half a unit of the last
  place written.
\<close>

definition agrees :: "nat \<Rightarrow> real \<Rightarrow> number \<Rightarrow> bool" where
  "agrees d v x = (case x of Finite s r \<Rightarrow> \<bar>signed s r - v\<bar> \<le> 1 / (2 * 10 ^ d) | _ \<Rightarrow> False)"

section \<open>Rounding to binary64\<close>

lemma pow2_powi: "pow2 e = 2 powi e"
  by (simp add: pow2_def power_int_def power_one_over inverse_eq_divide)

lemma pow2_pos: "0 < pow2 e"
  by (simp add: pow2_powi)

lemma pow2_add: "pow2 (a + b) = pow2 a * pow2 b"
  by (simp add: pow2_powi power_int_add)

lemma pow2_mono: "a \<le> b \<Longrightarrow> pow2 a \<le> pow2 b"
  by (simp add: pow2_powi power_int_increasing)

lemma pow2_less_cancel: "pow2 a < pow2 b \<Longrightarrow> a < b"
  using pow2_mono [of b a] by (cases "a < b") auto

lemma pow2_nat: "pow2 (int k) = 2 ^ k"
  by (simp add: pow2_def)

lemma pow2_neg_nat: "pow2 (- int k) = 1 / 2 ^ k"
  by (simp add: pow2_powi power_int_minus inverse_eq_divide)

lemma bits_bounds: "0 < n \<Longrightarrow> 2 ^ (bits n - 1) \<le> n \<and> n < 2 ^ bits n"
proof (induction n rule: bits.induct)
  case (1 n)
  show ?case
  proof (cases "n div 2 = 0")
    case True
    with "1.prems" have "n = 1" by (simp add: div_eq_0_iff) 
    then show ?thesis by (simp add: bits.simps)
  next
    case False
    with 1 have ih: "2 ^ (bits (n div 2) - 1) \<le> n div 2" "n div 2 < 2 ^ bits (n div 2)"
      by auto
    from False have pos: "0 < bits (n div 2)" by (simp add: bits.simps)
    have b: "bits n = Suc (bits (n div 2))" using "1.prems" by (simp add: bits.simps)
    have "2 ^ (bits n - 1) = 2 * 2 ^ (bits (n div 2) - 1)"
      using pos b by (cases "bits (n div 2)") simp_all
    also have "\<dots> \<le> 2 * (n div 2)" using ih(1) by simp
    also have "\<dots> \<le> n" by simp
    finally have lo: "2 ^ (bits n - 1) \<le> n" .
    have "n < 2 * (n div 2) + 2" by presburger
    also have "\<dots> \<le> 2 * 2 ^ bits (n div 2)" using ih(2) by simp
    finally have "n < 2 ^ bits n" by (simp add: b)
    with lo show ?thesis by simp
  qed
qed

lemma ilog2_bounds:
  assumes "0 < m"
  shows "pow2 (ilog2 m) \<le> m \<and> m < pow2 (ilog2 m + 1)"
proof (cases "1 \<le> m")
  case True
  define n where "n = nat \<lfloor>m\<rfloor>"
  have n1: "0 < n" and nm: "real n \<le> m" and mn: "m < real n + 1"
    using True unfolding n_def by linarith+
  have e: "ilog2 m = int (bits n) - 1" using True by (simp add: ilog2_def n_def)
  from bits_bounds [OF n1] have lo: "2 ^ (bits n - 1) \<le> n" and hi: "n < 2 ^ bits n" by auto
  have bpos: "0 < bits n" using n1 by (simp add: bits.simps)
  have e': "ilog2 m = int (bits n - 1)" using e bpos by simp
  have "pow2 (ilog2 m) = 2 ^ (bits n - 1)" unfolding e' by (rule pow2_nat)
  also have "\<dots> \<le> real n" using lo [folded of_nat_le_iff [where 'a = real]] by simp
  finally have A: "pow2 (ilog2 m) \<le> m" using nm by simp
  have "n + 1 \<le> 2 ^ bits n" using hi by simp
  then have "real (n + 1) \<le> real (2 ^ bits n)" by (simp only: of_nat_le_iff)
  then have "real n + 1 \<le> 2 ^ bits n" by simp
  moreover have "pow2 (ilog2 m + 1) = 2 ^ bits n" unfolding e using pow2_nat [of "bits n"] by simp
  ultimately show ?thesis using A mn by simp
next
  case False
  define N where "N = \<lceil>1 / m\<rceil>"
  define n where "n = nat (N - 1)"
  from False assms have inv: "1 < 1 / m" by simp
  then have N2: "2 \<le> N" unfolding N_def by linarith
  have up: "1 / m \<le> of_int N" and low: "of_int N - 1 < 1 / m" unfolding N_def by linarith+
  have n1: "0 < n" and nN: "int n = N - 1" using N2 by (simp_all add: n_def)
  have e: "ilog2 m = - int (bits n)" using False by (simp add: ilog2_def n_def N_def)
  from bits_bounds [OF n1] have lo: "2 ^ (bits n - 1) \<le> n" and hi: "n < 2 ^ bits n" by auto
  have bpos: "0 < bits n" using n1 by (simp add: bits.simps)
  have "real_of_int (int n) = of_int (N - 1)" using nN by simp
  then have rn: "real n = of_int N - 1" by simp
  have "n + 1 \<le> 2 ^ bits n" using hi by simp
  then have "real (n + 1) \<le> real (2 ^ bits n)" by (simp only: of_nat_le_iff)
  then have "real n + 1 \<le> 2 ^ bits n" by simp
  then have "1 / m \<le> 2 ^ bits n" using up rn by linarith
  then have "1 \<le> 2 ^ bits n * m" using assms by (simp add: field_simps)
  then have A: "pow2 (ilog2 m) \<le> m" unfolding e pow2_neg_nat by (simp add: field_simps)
  have "(2::real) ^ (bits n - 1) \<le> real n"
    using lo [folded of_nat_le_iff [where 'a = real]] by simp
  then have "2 ^ (bits n - 1) < 1 / m" using low rn by linarith
  then have B: "m * 2 ^ (bits n - 1) < 1" using assms by (simp add: field_simps)
  have "ilog2 m + 1 = - int (bits n - 1)" using e bpos by simp
  then have "pow2 (ilog2 m + 1) = 1 / 2 ^ (bits n - 1)" by (simp add: pow2_neg_nat)
  moreover have "m < 1 / 2 ^ (bits n - 1)" using B by (simp add: field_simps)
  ultimately have "m < pow2 (ilog2 m + 1)" by simp
  with A show ?thesis by simp
qed

lemma round_half_even_error: "\<bar>of_int (round_half_even q) - q\<bar> \<le> 1 / 2"
  unfolding round_half_even_def Let_def by (auto; linarith)


lemma round_mag_rel_error:
  assumes "pow2 (- 1022) \<le> m"
  shows "\<bar>round_mag m - m\<bar> \<le> m / 2 ^ 53"
proof -
  have mpos: "0 < m" using assms pow2_pos [of "- 1022"] by linarith
  define e where "e = ilog2 m"
  from ilog2_bounds [OF mpos] have lo: "pow2 e \<le> m" and hi: "m < pow2 (e + 1)"
    by (simp_all add: e_def)
  have "pow2 (- 1022) < pow2 (e + 1)" using assms hi by linarith
  then have "- 1022 < e + 1" by (rule pow2_less_cancel)
  then have mx: "max e (- 1022) = e" by simp
  define u where "u = pow2 (e - 52)"
  have upos: "0 < u" by (simp add: u_def pow2_pos)
  have rm: "round_mag m = of_int (round_half_even (m / u)) * u"
    by (simp add: round_mag_def e_def [symmetric] mx u_def Let_def)
  have "round_mag m - m = (of_int (round_half_even (m / u)) - m / u) * u"
    using upos by (simp add: rm left_diff_distrib)
  then have "\<bar>round_mag m - m\<bar> = \<bar>of_int (round_half_even (m / u)) - m / u\<bar> * u"
    using upos by (simp add: abs_mult)
  also have "\<dots> \<le> 1 / 2 * u"
    using round_half_even_error [of "m / u"] upos by (intro mult_right_mono) simp_all
  also have "\<dots> = pow2 e / 2 ^ 53"
  proof -
    have "pow2 e = pow2 ((e - 52) + 52)" by simp
    also have "\<dots> = u * 2 ^ 52" unfolding pow2_add u_def by (simp add: pow2_def)
    finally show ?thesis by simp
  qed
  also have "\<dots> \<le> m / 2 ^ 53" using lo by (simp add: divide_right_mono)
  finally show ?thesis .
qed

lemma in_rangeE:
  assumes "in_range lo hi x"
  obtains r where "x = Finite False r" "lo \<le> r" "r \<le> hi"
  using assms by (auto simp: in_range_def split: number.splits)

lemma in_range_Finite [simp]: "in_range lo hi (Finite s r) \<longleftrightarrow> \<not> s \<and> lo \<le> r \<and> r \<le> hi"
  by (simp add: in_range_def)

lemma pow2_m1022_le: "pow2 (- 1022) \<le> 1 / 2 ^ 128"
proof -
  have "pow2 (- 1022) \<le> pow2 (- 128)" by (rule pow2_mono) simp
  then show ?thesis by (simp add: pow2_def)
qed

lemma round_mag_bounds:
  assumes "pow2 (- 1022) \<le> m"
  shows "m * (1 - 1 / 2 ^ 53) \<le> round_mag m" and "round_mag m \<le> m * (1 + 1 / 2 ^ 53)"
proof -
  have e1: "m * (1 + 1 / 2 ^ 53) = m + m / 2 ^ 53" and e2: "m * (1 - 1 / 2 ^ 53) = m - m / 2 ^ 53"
    by (simp_all add: algebra_simps)
  from round_mag_rel_error [OF assms]
  show "m * (1 - 1 / 2 ^ 53) \<le> round_mag m" and "round_mag m \<le> m * (1 + 1 / 2 ^ 53)"
    unfolding e1 e2 by linarith+
qed

lemma round_to_double_normal:
  assumes lo: "1 / 2 ^ 128 \<le> m" and hi: "m \<le> 2 ^ 128"
  shows "\<exists>r. round_to_double s m = Finite s r \<and>
             m * (1 - 1 / 2 ^ 53) \<le> r \<and> r \<le> m * (1 + 1 / 2 ^ 53)"
proof -
  have "pow2 (- 1022) \<le> m" using lo pow2_m1022_le by linarith
  from round_mag_bounds [OF this]
  have dn: "m * (1 - 1 / 2 ^ 53) \<le> round_mag m" and up: "round_mag m \<le> m * (1 + 1 / 2 ^ 53)" .
  have "m * (1 + 1 / 2 ^ 53) \<le> 2 ^ 128 * (1 + 1 / 2 ^ 53)"
    using hi by (intro mult_right_mono) simp_all
  also have "\<dots> < (2::real) ^ 1024" by simp
  finally have "round_mag m < 2 ^ 1024" using up by linarith
  then show ?thesis using up dn by (simp add: round_to_double_def Let_def)
qed

lemma js_mul_normal:
  assumes "1 / 2 ^ 64 \<le> a" "a \<le> 2 ^ 64" "1 / 2 ^ 64 \<le> b" "b \<le> 2 ^ 64"
  shows "\<exists>r. js_mul (Finite False a) (Finite False b) = Finite False r \<and>
             a * b * (1 - 1 / 2 ^ 53) \<le> r \<and> r \<le> a * b * (1 + 1 / 2 ^ 53)"
proof -
  have "(1 / 2 ^ 64) * (1 / 2 ^ 64) \<le> a * b"
    using assms by (intro mult_mono) simp_all
  then have lo: "1 / 2 ^ 128 \<le> a * b" by simp
  have "a * b \<le> 2 ^ 64 * 2 ^ 64"
    using assms by (intro mult_mono) (simp_all add: order_trans [of 0 "1 / 2 ^ 64"])
  then have hi: "a * b \<le> 2 ^ 128" by simp
  from round_to_double_normal [OF lo hi, of False] show ?thesis by simp
qed

lemma js_div_normal:
  assumes "1 / 2 ^ 64 \<le> a" "a \<le> 2 ^ 64" "1 / 2 ^ 64 \<le> b" "b \<le> 2 ^ 64"
  shows "\<exists>r. js_div (Finite False a) (Finite False b) = Finite False r \<and>
             a / b * (1 - 1 / 2 ^ 53) \<le> r \<and> r \<le> a / b * (1 + 1 / 2 ^ 53)"
proof -
  have apos: "0 < a" and bpos: "0 < b"
    using assms by (smt (verit) divide_pos_pos zero_less_power zero_less_numeral)+
  have "(1 / 2 ^ 64) / 2 ^ 64 \<le> a / b"
    using assms bpos by (intro frac_le) simp_all
  then have lo: "1 / 2 ^ 128 \<le> a / b" by simp
  have "a / b \<le> 2 ^ 64 / (1 / 2 ^ 64)"
    using assms apos by (intro frac_le) simp_all
  then have hi: "a / b \<le> 2 ^ 128" by simp
  from round_to_double_normal [OF lo hi, of False] bpos show ?thesis by simp
qed

lemma js_mul_in_range:
  assumes "in_range l1 h1 a" "in_range l2 h2 b"
    and "1 / 2 ^ 64 \<le> l1" "h1 \<le> 2 ^ 64" "1 / 2 ^ 64 \<le> l2" "h2 \<le> 2 ^ 64"
    and "l \<le> l1 * l2 * (1 - 1 / 2 ^ 53)" "h1 * h2 * (1 + 1 / 2 ^ 53) \<le> h"
  shows "in_range l h (js_mul a b)"
proof -
  from assms(1) obtain x where x: "a = Finite False x" "l1 \<le> x" "x \<le> h1" by (rule in_rangeE)
  from assms(2) obtain y where y: "b = Finite False y" "l2 \<le> y" "y \<le> h2" by (rule in_rangeE)
  have l1pos: "0 < l1" and l2pos: "0 < l2"
    using assms(3,5) by (smt (verit) divide_pos_pos zero_less_power zero_less_numeral)+
  have "\<exists>r. js_mul (Finite False x) (Finite False y) = Finite False r \<and>
             x * y * (1 - 1 / 2 ^ 53) \<le> r \<and> r \<le> x * y * (1 + 1 / 2 ^ 53)"
    using x y assms(3-6) by (intro js_mul_normal) linarith+
  then obtain r where r: "js_mul a b = Finite False r"
    "x * y * (1 - 1 / 2 ^ 53) \<le> r" "r \<le> x * y * (1 + 1 / 2 ^ 53)"
    using x(1) y(1) by auto
  have "l1 * l2 \<le> x * y" using x y l1pos l2pos by (intro mult_mono) simp_all
  then have "l1 * l2 * (1 - 1 / 2 ^ 53) \<le> x * y * (1 - 1 / 2 ^ 53)"
    by (intro mult_right_mono) simp_all
  then have A: "l \<le> r" using assms(7) r(2) by linarith
  have "x * y \<le> h1 * h2" using x y l1pos l2pos by (intro mult_mono) simp_all
  then have "x * y * (1 + 1 / 2 ^ 53) \<le> h1 * h2 * (1 + 1 / 2 ^ 53)"
    by (intro mult_right_mono) simp_all
  then have "r \<le> h" using assms(8) r(3) by linarith
  with A r(1) show ?thesis by simp
qed

lemma js_div_in_range:
  assumes "in_range l1 h1 a" "in_range l2 h2 b"
    and "1 / 2 ^ 64 \<le> l1" "h1 \<le> 2 ^ 64" "1 / 2 ^ 64 \<le> l2" "h2 \<le> 2 ^ 64"
    and "l \<le> l1 / h2 * (1 - 1 / 2 ^ 53)" "h1 / l2 * (1 + 1 / 2 ^ 53) \<le> h"
  shows "in_range l h (js_div a b)"
proof -
  from assms(1) obtain x where x: "a = Finite False x" "l1 \<le> x" "x \<le> h1" by (rule in_rangeE)
  from assms(2) obtain y where y: "b = Finite False y" "l2 \<le> y" "y \<le> h2" by (rule in_rangeE)
  have l1pos: "0 < l1" and l2pos: "0 < l2"
    using assms(3,5) by (smt (verit) divide_pos_pos zero_less_power zero_less_numeral)+
  have "\<exists>r. js_div (Finite False x) (Finite False y) = Finite False r \<and>
             x / y * (1 - 1 / 2 ^ 53) \<le> r \<and> r \<le> x / y * (1 + 1 / 2 ^ 53)"
    using x y assms(3-6) by (intro js_div_normal) linarith+
  then obtain r where r: "js_div a b = Finite False r"
    "x / y * (1 - 1 / 2 ^ 53) \<le> r" "r \<le> x / y * (1 + 1 / 2 ^ 53)"
    using x(1) y(1) by auto
  have "l1 / h2 \<le> x / y" using x y l1pos l2pos by (intro frac_le) simp_all
  then have "l1 / h2 * (1 - 1 / 2 ^ 53) \<le> x / y * (1 - 1 / 2 ^ 53)"
    by (intro mult_right_mono) simp_all
  then have A: "l \<le> r" using assms(7) r(2) by linarith
  have "x / y \<le> h1 / l2" using x y l1pos l2pos by (intro frac_le) simp_all
  then have "x / y * (1 + 1 / 2 ^ 53) \<le> h1 / l2 * (1 + 1 / 2 ^ 53)"
    by (intro mult_right_mono) simp_all
  then have "r \<le> h" using assms(8) r(3) by linarith
  with A r(1) show ?thesis by simp
qed

section \<open>Evaluation on concrete numbers\<close>

text \<open>The rounding functions compute on numerals by rewriting with their definitions.\<close>

lemmas eval_round = round_to_double_def round_mag_def ilog2_def pow2_def round_half_even_def
  Let_def bits.simps

lemma js_lit_values:
  "js_lit 20 = Finite False 20"
  "js_lit 24 = Finite False 24"
  "js_lit 25 = Finite False 25"
  "js_lit (1 / 10) = Finite False (3602879701896397 / 36028797018963968)"
  "js_lit (12 / 100) = Finite False (1080863910568919 / 9007199254740992)"
  "js_lit (15 / 100) = Finite False (5404319552844595 / 36028797018963968)"
  "js_lit (47 / 100) = Finite False (2116691824864133 / 4503599627370496)"
  "js_lit (57 / 100) = Finite False (5134103575202365 / 9007199254740992)"
  "js_lit (66 / 100) = Finite False (5944751508129055 / 9007199254740992)"
  "js_lit 6 = Finite False 6"
  "js_lit 8 = Finite False 8"
  "js_lit 10 = Finite False 10"
  "js_lit (18 / 1000) = Finite False (5188146770730811 / 288230376151711744)"
  "js_lit (22 / 1000) = Finite False (3170534137668829 / 144115188075855872)"
  "js_lit (25 / 1000) = Finite False (3602879701896397 / 144115188075855872)"
  "js_lit (8 / 100) = Finite False (5764607523034235 / 72057594037927936)"
  "js_lit (7 / 10000) = Finite False (6456360425798343 / 9223372036854775808)"
  "js_lit (8 / 10000) = Finite False (7378697629483821 / 9223372036854775808)"
  "js_lit (9 / 10000) = Finite False (4150517416584649 / 4611686018427387904)"
  "js_lit (7 / 10) = Finite False (3152519739159347 / 4503599627370496)"
  "js_lit (75 / 100) = Finite False (3 / 4)"
  "js_lit (8 / 10) = Finite False (3602879701896397 / 4503599627370496)"
  "js_lit (125 / 10) = Finite False (25 / 2)"
  "js_lit 15 = Finite False 15"
  "js_lit (254 / 10000) = Finite False (3660525777126739 / 144115188075855872)"
  "js_lit 3600 = Finite False 3600"
  "js_lit 7 = Finite False 7"
  "js_lit 80 = Finite False 80"
  by (simp_all add: js_lit_def eval_round)

lemma calculations_initial:
  "calculations initial_inputs =
     \<lparr> frontalAreaA = Finite False (4648867736950959 / 18014398509481984),
       airVelocityV = Finite False (4101098612871483 / 2251799813685248),
       residenceTimeTau = Finite False (7912966360767591 / 144115188075855872),
       hourlyCo2CaptureRateY = Finite False (1536210258813393 / 72057594037927936),
       requiredSorbentMass = Finite False (6300862389664307 / 562949953421312),
       totalWeeklyCo2Capture = Finite False (8065103858770313 / 9007199254740992),
       totalFilterWeight = Finite False (9001231985234725 / 562949953421312),
       weeklyCartridgeSwaps = Finite False (1800246397046945 / 1125899906842624) \<rparr>"
  by (simp add: calculations_def initial_inputs_def js_lit_def eval_round)

lemma calculations_wide:
  "calculations wide_inputs =
     \<lparr> frontalAreaA = Finite False (5811084671188699 / 18014398509481984),
       airVelocityV = Finite False (6561757780594373 / 4503599627370496),
       residenceTimeTau = Finite False (77275062116871 / 1125899906842624),
       hourlyCo2CaptureRateY = Finite False (1536210258813393 / 72057594037927936),
       requiredSorbentMass = Finite False (6300862389664307 / 562949953421312),
       totalWeeklyCo2Capture = Finite False (8065103858770313 / 9007199254740992),
       totalFilterWeight = Finite False (9001231985234725 / 562949953421312),
       weeklyCartridgeSwaps = Finite False (1800246397046945 / 1125899906842624) \<rparr>"
  by (simp add: calculations_def wide_inputs_def initial_inputs_def js_lit_def eval_round)

lemma calculations_heavy_use:
  "calculations heavy_use_inputs =
     \<lparr> frontalAreaA = Finite False (4648867736950959 / 18014398509481984),
       airVelocityV = Finite False (4101098612871483 / 2251799813685248),
       residenceTimeTau = Finite False (7912966360767591 / 144115188075855872),
       hourlyCo2CaptureRateY = Finite False (7900509902468879 / 288230376151711744),
       requiredSorbentMass = Finite False (1687730997231511 / 70368744177664),
       totalWeeklyCo2Capture = Finite False (1080147838228167 / 562949953421312),
       totalFilterWeight = Finite False (8438654986157555 / 281474976710656),
       weeklyCartridgeSwaps = Finite False (1687730997231511 / 562949953421312) \<rparr>"
  by (simp add: calculations_def heavy_use_inputs_def initial_inputs_def js_lit_def eval_round)

lemma js_lit_points:
  "js_lit (2999 / 1000) = Finite False (6753147641242059 / 2251799813685248)"
  "js_lit (999 / 1000) = Finite False (8998192055486251 / 9007199254740992)"
  "js_lit (2949 / 1000) = Finite False (1660139412639449 / 562949953421312)"
  "js_lit (949 / 1000) = Finite False (8547832092749201 / 9007199254740992)"
  "js_lit 0 = Finite False 0"
  by (simp_all add: js_lit_def eval_round)

section \<open>The memo cell\<close>

lemma calculations_deps: "deps i = deps j \<Longrightarrow> calculations i = calculations j"
  by (simp add: deps_def calculations_def)

lemma vars_render [simp]: "vars (snd (render c)) = vars c"
  by (simp add: render_def Let_def)

lemma memo_render [simp]: "memo (snd (render c)) = Some (deps (vars c), fst (render c))"
  by (simp add: render_def Let_def)

lemma fst_render: "fst (render c) = useMemo (memo c) (vars c)"
  by (simp add: render_def Let_def)

lemma run_snoc: "run (evs @ [ev]) = dispatch ev (run evs)"
  by (simp add: run_def)

lemma useMemo_run: "useMemo (memo (run evs)) i = calculations i"
proof (induction evs arbitrary: i rule: rev_induct)
  case Nil
  show ?case
    using calculations_deps [of initial_inputs i]
    by (simp add: run_def mount_def fst_render useMemo_def)
next
  case (snoc ev evs)
  show ?case
    using calculations_deps [of "update ev (vars (run evs))" i] snoc
    by (simp add: run_snoc dispatch_def fst_render useMemo_def)
qed

lemma render_run: "fst (render (run evs)) = calculations (vars (run evs))"
  by (simp add: fst_render useMemo_run)

lemma vars_run_Nil: "vars (run []) = initial_inputs"
  by (simp add: run_def mount_def)

lemma vars_run_snoc: "vars (run (evs @ [ev])) = update ev (vars (run evs))"
  by (simp add: run_snoc dispatch_def)

section \<open>The class of a displayed value\<close>

lemma round_mag_0: "round_mag 0 = 0"
  by (simp add: eval_round)

lemma round_mag_123: "round_mag 1 = 1" "round_mag 2 = 2" "round_mag 3 = 3"
  by (simp_all add: eval_round)

lemma js_lit_123: "js_lit 1 = Finite False 1" "js_lit 2 = Finite False 2" "js_lit 3 = Finite False 3"
  by (simp_all add: js_lit_def eval_round)

lemma round_mag_nonneg: "0 \<le> m \<Longrightarrow> 0 \<le> round_mag m"
proof -
  assume m: "0 \<le> m"
  define u where "u = pow2 (max (ilog2 m) (- 1022) - 52)"
  have upos: "0 < u" by (simp add: u_def pow2_pos)
  then have "0 \<le> m / u" using m by simp
  then have "0 \<le> \<lfloor>m / u\<rfloor>" by simp
  then have "0 \<le> round_half_even (m / u)" by (auto simp: round_half_even_def Let_def)
  then show ?thesis using upos by (simp add: round_mag_def Let_def u_def [symmetric])
qed

lemma tenth_normal: "0 < n \<Longrightarrow> pow2 (- 1022) \<le> real n / 10"
proof -
  assume "0 < n"
  then have "1 \<le> real n" by simp
  then have "1 / 2 ^ 128 \<le> real n / 10" by simp
  with pow2_m1022_le show ?thesis by linarith
qed

lemma round_mag_tenths:
  fixes n :: nat and t :: real
  assumes t: "t = 1 \<or> t = 2 \<or> t = 3"
  shows "t \<le> round_mag (real n / 10) \<longleftrightarrow> 10 * t \<le> real n"
proof (cases "10 * t \<le> real n")
  case True
  show ?thesis
  proof (cases "real n = 10 * t")
    case True
    then have "real n / 10 = t" by simp
    then show ?thesis using t True round_mag_123 by auto
  next
    case False
    have "\<exists>k::nat. 10 * t = real k" using t
      by (metis of_nat_numeral mult.commute mult.right_neutral numeral_times_numeral of_nat_mult)
    then obtain k :: nat where k: "10 * t = real k" ..
    with True False have "k < n" by simp
    then have "k + 1 \<le> n" by simp
    then have "real k + 1 \<le> real n" by (metis of_nat_le_iff of_nat_add of_nat_1)
    then have ge: "t + 1 / 10 \<le> real n / 10" using k by simp
    have "0 < n" using \<open>k < n\<close> by simp
    have "t \<le> (t + 1 / 10) * (1 - 1 / 2 ^ 53)" using t by auto
    also have "\<dots> \<le> real n / 10 * (1 - 1 / 2 ^ 53)"
      using ge by (intro mult_right_mono) simp_all
    also have "\<dots> \<le> round_mag (real n / 10)"
      by (rule round_mag_bounds(1) [OF tenth_normal [OF \<open>0 < n\<close>]])
    finally show ?thesis using True by simp
  qed
next
  case False
  have "\<exists>k::nat. 10 * t = real k" using t
    by (metis of_nat_numeral mult.commute mult.right_neutral numeral_times_numeral of_nat_mult)
  then obtain k :: nat where k: "10 * t = real k" ..
  with False have "n < k" by simp
  then have "n + 1 \<le> k" by simp
  then have "real n + 1 \<le> real k" by (metis of_nat_le_iff of_nat_add of_nat_1)
  then have le: "real n / 10 \<le> t - 1 / 10" using k by simp
  have "round_mag (real n / 10) < t"
  proof (cases "n = 0")
    case True
    then show ?thesis using t round_mag_0 by auto
  next
    case False
    then have "0 < n" by simp
    from round_mag_bounds(2) [OF tenth_normal [OF this]]
    have "round_mag (real n / 10) \<le> real n / 10 * (1 + 1 / 2 ^ 53)" .
    also have "\<dots> \<le> (t - 1 / 10) * (1 + 1 / 2 ^ 53)"
      using le by (intro mult_right_mono) simp_all
    also have "\<dots> < t" using t by auto
    finally show ?thesis .
  qed
  then show ?thesis using False by simp
qed

lemma js_ge_round_tenths:
  assumes t: "t = 1 \<or> t = 2 \<or> t = 3"
  shows "js_ge (round_to_double False (real n / 10)) (Finite False t) \<longleftrightarrow> 10 * t \<le> real n"
proof (cases "2 ^ 1024 \<le> round_mag (real n / 10)")
  case True
  have "t \<le> 2 ^ 1024" using t by auto
  with True have "t \<le> round_mag (real n / 10)" by linarith
  then have "10 * t \<le> real n" using round_mag_tenths [OF t] by simp
  with True show ?thesis by (simp add: round_to_double_def Let_def js_ge_def)
next
  case False
  then show ?thesis
    using round_mag_tenths [OF t, of n]
    by (auto simp: round_to_double_def Let_def js_ge_def signed_def)
qed

lemma js_ge_negative:
  assumes "0 < t"
  shows "\<not> js_ge (round_to_double True (real n / 10)) (Finite False t)"
proof -
  have "0 \<le> round_mag (real n / 10)" by (rule round_mag_nonneg) simp
  then show ?thesis using assms
    by (auto simp: round_to_double_def Let_def js_ge_def signed_def)
qed

lemma getStatusClass_Decimal:
  "getStatusClass (Str (Decimal s n)) =
     (if s then ''great'' else if 30 \<le> n then ''bad'' else if 20 \<le> n then ''okay''
      else if 10 \<le> n then ''good'' else ''great'')"
proof (cases s)
  case True
  then show ?thesis
    using js_ge_negative [of 1 n] js_ge_negative [of 2 n] js_ge_negative [of 3 n]
    by (simp add: getStatusClass_def js_lit_123)
next
  case False
  have "js_ge (round_to_double False (real n / 10)) (Finite False 3) \<longleftrightarrow> 30 \<le> n"
    "js_ge (round_to_double False (real n / 10)) (Finite False 2) \<longleftrightarrow> 20 \<le> n"
    "js_ge (round_to_double False (real n / 10)) (Finite False 1) \<longleftrightarrow> 10 \<le> n"
    using js_ge_round_tenths [of 3 n] js_ge_round_tenths [of 2 n] js_ge_round_tenths [of 1 n]
    by simp_all
  with False show ?thesis by (simp add: getStatusClass_def js_lit_123)
qed

lemma getStatusClass_Num:
  "getStatusClass (Num (Finite False r)) =
     (if 3 \<le> r then ''bad'' else if 2 \<le> r then ''okay'' else if 1 \<le> r then ''good'' else ''great'')"
  by (simp add: getStatusClass_def js_lit_123 js_ge_def signed_def)

lemma displayed_class_raw:
  assumes "0 \<le> r"
  shows "displayed_class (Finite s r) =
     (if s then ''great'' else if 295 / 100 \<le> r then ''bad'' else if 195 / 100 \<le> r then ''okay''
      else if 95 / 100 \<le> r then ''good'' else ''great'')"
proof (cases "10 ^ 21 \<le> r")
  case True
  then show ?thesis
    by (auto simp: displayed_class_def getStatusClass_def js_lit_123 js_ge_def signed_def)
next
  case False
  define n where "n = nat \<lfloor>r * 10 + 1 / 2\<rfloor>"
  have n: "int n = \<lfloor>r * 10 + 1 / 2\<rfloor>" using assms by (simp add: n_def)
  have "\<And>k::nat. k \<le> n \<longleftrightarrow> real k - 1 / 2 \<le> r * 10"
  proof -
    fix k :: nat
    have "k \<le> n \<longleftrightarrow> int k \<le> \<lfloor>r * 10 + 1 / 2\<rfloor>" using n by linarith
    also have "\<dots> \<longleftrightarrow> of_int (int k) \<le> r * 10 + 1 / 2" by (rule le_floor_iff)
    finally show "k \<le> n \<longleftrightarrow> real k - 1 / 2 \<le> r * 10" by auto
  qed
  from this [of 30] this [of 20] this [of 10]
  have "30 \<le> n \<longleftrightarrow> 295 / 100 \<le> r" "20 \<le> n \<longleftrightarrow> 195 / 100 \<le> r" "10 \<le> n \<longleftrightarrow> 95 / 100 \<le> r"
    by auto
  with False show ?thesis
    by (simp add: displayed_class_def getStatusClass_Decimal n_def [symmetric])
qed

section \<open>Ranges of the quantities over the presets\<close>

lemma preset_ranges:
  assumes "presets i"
  shows "in_range 20 25 (filterWidth i)"
    and "in_range 20 25 (filterLength i)"
    and "in_range (99 / 1000) (151 / 1000) (filterDepthL i)"
    and "in_range (46 / 100) (67 / 100) (airflowQ i)"
    and "in_range 6 10 (dailyRuntime i)"
    and "in_range (17 / 1000) (26 / 1000) (sorbentCaptureEfficiencyEta i)"
    and "in_range (7 / 100) (13 / 100) (sorbentWorkingCapacityCw i)"
    and "in_range (6 / 10000) (1 / 1000) (initialCo2ConcentrationCin i)"
    and "in_range (69 / 100) (81 / 100) (sorbentMassFraction i)"
    and "in_range 10 15 (maxCartridgeWeight i)"
proof -
  from assms have m:
    "filterWidth i \<in> set [js_lit 20, js_lit 24, js_lit 25]"
    "filterLength i \<in> set [js_lit 20, js_lit 24, js_lit 25]"
    "filterDepthL i \<in> set [js_lit (1 / 10), js_lit (12 / 100), js_lit (15 / 100)]"
    "airflowQ i \<in> set [js_lit (47 / 100), js_lit (57 / 100), js_lit (66 / 100)]"
    "dailyRuntime i \<in> set [js_lit 6, js_lit 8, js_lit 10]"
    "sorbentCaptureEfficiencyEta i \<in> set [js_lit (18 / 1000), js_lit (22 / 1000), js_lit (25 / 1000)]"
    "sorbentWorkingCapacityCw i \<in> set [js_lit (8 / 100), js_lit (1 / 10), js_lit (12 / 100)]"
    "initialCo2ConcentrationCin i \<in> set [js_lit (7 / 10000), js_lit (8 / 10000), js_lit (9 / 10000)]"
    "sorbentMassFraction i \<in> set [js_lit (7 / 10), js_lit (75 / 100), js_lit (8 / 10)]"
    "maxCartridgeWeight i \<in> set [js_lit 10, js_lit (125 / 10), js_lit 15]"
    unfolding presets_def by blast+
  show "in_range 20 25 (filterWidth i)" using m(1) unfolding js_lit_values by auto
  show "in_range 20 25 (filterLength i)" using m(2) unfolding js_lit_values by auto
  show "in_range (99 / 1000) (151 / 1000) (filterDepthL i)" using m(3) unfolding js_lit_values by auto
  show "in_range (46 / 100) (67 / 100) (airflowQ i)" using m(4) unfolding js_lit_values by auto
  show "in_range 6 10 (dailyRuntime i)" using m(5) unfolding js_lit_values by auto
  show "in_range (17 / 1000) (26 / 1000) (sorbentCaptureEfficiencyEta i)"
    using m(6) unfolding js_lit_values by auto
  show "in_range (7 / 100) (13 / 100) (sorbentWorkingCapacityCw i)"
    using m(7) unfolding js_lit_values by auto
  show "in_range (6 / 10000) (1 / 1000) (initialCo2ConcentrationCin i)"
    using m(8) unfolding js_lit_values by auto
  show "in_range (69 / 100) (81 / 100) (sorbentMassFraction i)"
    using m(9) unfolding js_lit_values by auto
  show "in_range 10 15 (maxCartridgeWeight i)" using m(10) unfolding js_lit_values by auto
qed

lemma flow_concentration_range:
  assumes "presets i"
  shows "in_range (27 / 100000) (68 / 100000) (js_mul (airflowQ i) (initialCo2ConcentrationCin i))"
  by (rule js_mul_in_range [OF preset_ranges(4) [OF assms] preset_ranges(8) [OF assms]]) simp_all

lemma calculations_ranges:
  assumes "presets i"
  shows "in_range (24 / 100) (44 / 100) (frontalAreaA (calculations i))"
    and "in_range 1 (28 / 10) (airVelocityV (calculations i))"
    and "in_range (35 / 1000) (152 / 1000) (residenceTimeTau (calculations i))"
    and "in_range (16 / 1000) (65 / 1000) (hourlyCo2CaptureRateY (calculations i))"
    and "in_range (66 / 100) (47 / 10) (totalWeeklyCo2Capture (calculations i))"
    and "in_range 5 68 (requiredSorbentMass (calculations i))"
    and "in_range 6 99 (totalFilterWeight (calculations i))"
    and "in_range (39 / 100) 10 (weeklyCartridgeSwaps (calculations i))"
proof -
  note p = preset_ranges [OF assms]
  have c: "in_range (25 / 1000) (26 / 1000) (js_lit (254 / 10000))"
    and k: "in_range 3600 3600 (js_lit 3600)" and s: "in_range 7 7 (js_lit 7)"
    unfolding js_lit_values by simp_all
  define wm where "wm = js_mul (filterWidth i) (js_lit (254 / 10000))"
  define lm where "lm = js_mul (filterLength i) (js_lit (254 / 10000))"
  define A where "A = js_mul wm lm"
  define v where "v = js_div (airflowQ i) A"
  define tau where "tau = js_div (filterDepthL i) v"
  define p1 where "p1 = js_mul (airflowQ i) (initialCo2ConcentrationCin i)"
  define p2 where "p2 = js_mul p1 (sorbentCaptureEfficiencyEta i)"
  define Y where "Y = js_mul p2 (js_lit 3600)"
  define t1 where "t1 = js_mul Y (dailyRuntime i)"
  define T where "T = js_mul t1 (js_lit 7)"
  define R where "R = js_div T (sorbentWorkingCapacityCw i)"
  define W where "W = js_div R (sorbentMassFraction i)"
  define S where "S = js_div W (maxCartridgeWeight i)"
  have wm: "in_range (49 / 100) (66 / 100) wm"
    unfolding wm_def by (rule js_mul_in_range [OF p(1) c]) simp_all
  have lm: "in_range (49 / 100) (66 / 100) lm"
    unfolding lm_def by (rule js_mul_in_range [OF p(2) c]) simp_all
  have A: "in_range (24 / 100) (44 / 100) A"
    unfolding A_def by (rule js_mul_in_range [OF wm lm]) simp_all
  have v: "in_range 1 (28 / 10) v"
    unfolding v_def by (rule js_div_in_range [OF p(4) A]) simp_all
  have tau: "in_range (35 / 1000) (152 / 1000) tau"
    unfolding tau_def by (rule js_div_in_range [OF p(3) v]) simp_all
  have p1: "in_range (27 / 100000) (68 / 100000) p1"
    unfolding p1_def by (rule js_mul_in_range [OF p(4) p(8)]) simp_all
  have p2: "in_range (45 / 10000000) (18 / 1000000) p2"
    unfolding p2_def by (rule js_mul_in_range [OF p1 p(6)]) simp_all
  have Y: "in_range (16 / 1000) (65 / 1000) Y"
    unfolding Y_def by (rule js_mul_in_range [OF p2 k]) simp_all
  have t1: "in_range (95 / 1000) (66 / 100) t1"
    unfolding t1_def by (rule js_mul_in_range [OF Y p(5)]) simp_all
  have T: "in_range (66 / 100) (47 / 10) T"
    unfolding T_def by (rule js_mul_in_range [OF t1 s]) simp_all
  have R: "in_range 5 68 R"
    unfolding R_def by (rule js_div_in_range [OF T p(7)]) simp_all
  have W: "in_range 6 99 W"
    unfolding W_def by (rule js_div_in_range [OF R p(9)]) simp_all
  have S: "in_range (39 / 100) 10 S"
    unfolding S_def by (rule js_div_in_range [OF W p(10)]) simp_all
  have eq: "calculations i =
     \<lparr> frontalAreaA = A, airVelocityV = v, residenceTimeTau = tau, hourlyCo2CaptureRateY = Y,
       requiredSorbentMass = R, totalWeeklyCo2Capture = T, totalFilterWeight = W,
       weeklyCartridgeSwaps = S \<rparr>"
    by (simp add: calculations_def Let_def wm_def lm_def A_def v_def tau_def p1_def p2_def Y_def
        t1_def T_def R_def W_def S_def)
  show "in_range (24 / 100) (44 / 100) (frontalAreaA (calculations i))"
    and "in_range 1 (28 / 10) (airVelocityV (calculations i))"
    and "in_range (35 / 1000) (152 / 1000) (residenceTimeTau (calculations i))"
    and "in_range (16 / 1000) (65 / 1000) (hourlyCo2CaptureRateY (calculations i))"
    and "in_range (66 / 100) (47 / 10) (totalWeeklyCo2Capture (calculations i))"
    and "in_range 5 68 (requiredSorbentMass (calculations i))"
    and "in_range 6 99 (totalFilterWeight (calculations i))"
    and "in_range (39 / 100) 10 (weeklyCartridgeSwaps (calculations i))"
    using A v tau Y T R W S by (simp_all add: eq)
qed

section \<open>Strict monotonicity of rounded products and quotients\<close>

lemma scaled_gap_div:
  fixes w a b p q :: real
  assumes "0 < w" "0 < a" "0 < b" "a * p < b * q"
  shows "w / b * p < w / a * q"
proof -
  have "0 < w / (a * b)" using assms by simp
  from mult_strict_left_mono [OF assms(4) this]
  show ?thesis using assms by (simp add: field_simps)
qed

lemma js_div_strict_antimono:
  assumes w: "1 / 2 ^ 64 \<le> w" "w \<le> 2 ^ 64"
    and a: "1 / 2 ^ 64 \<le> a" and b: "b \<le> 2 ^ 64"
    and gap: "a * (1 + 1 / 2 ^ 53) < b * (1 - 1 / 2 ^ 53)"
  shows "js_lt (js_div (Finite False w) (Finite False b)) (js_div (Finite False w) (Finite False a))"
proof -
  have wpos: "0 < w" and apos: "0 < a"
    using w a by (smt (verit) divide_pos_pos zero_less_power zero_less_numeral)+
  have "a \<le> a * (1 + 1 / 2 ^ 53)" using apos by (simp add: algebra_simps)
  moreover have bq: "0 < b * (1 - 1 / 2 ^ 53)" using gap apos calculation by linarith
  then have bpos: "0 < b" by (simp add: zero_less_mult_iff)
  moreover have "b * (1 - 1 / 2 ^ 53) \<le> b" using bpos by (simp add: algebra_simps)
  ultimately have ab: "a < b" using gap by linarith
  from js_div_normal [of w a] w a ab b
  obtain ra where ra: "js_div (Finite False w) (Finite False a) = Finite False ra"
    "w / a * (1 - 1 / 2 ^ 53) \<le> ra" by auto
  from js_div_normal [of w b] w a ab b
  obtain rb where rb: "js_div (Finite False w) (Finite False b) = Finite False rb"
    "rb \<le> w / b * (1 + 1 / 2 ^ 53)" by auto
  from scaled_gap_div [OF wpos apos bpos gap]
  have "rb < ra" using ra(2) rb(2) by linarith
  then show ?thesis unfolding ra(1) rb(1) by (simp add: js_lt_def signed_def)
qed

lemma js_mul_mul_strict_mono:
  assumes w: "1 / 2 ^ 30 \<le> w" "w \<le> 2 ^ 30"
    and a: "1 / 2 ^ 30 \<le> a" and b: "b \<le> 2 ^ 30"
    and k: "1 / 2 ^ 64 \<le> k" "k \<le> 2 ^ 64"
    and gap: "a * ((1 + 1 / 2 ^ 53) * (1 + 1 / 2 ^ 53)) < b * ((1 - 1 / 2 ^ 53) * (1 - 1 / 2 ^ 53))"
  shows "js_lt (js_mul (js_mul (Finite False w) (Finite False a)) (Finite False k))
               (js_mul (js_mul (Finite False w) (Finite False b)) (Finite False k))"
proof -
  have wpos: "0 < w" and apos: "0 < a" and kpos: "0 < k"
    using w a k by (smt (verit) divide_pos_pos zero_less_power zero_less_numeral)+
  have "a \<le> a * ((1 + 1 / 2 ^ 53) * (1 + 1 / 2 ^ 53))" using apos by (simp add: algebra_simps)
  moreover have bq: "0 < b * ((1 - 1 / 2 ^ 53) * (1 - 1 / 2 ^ 53))"
    using gap apos calculation by linarith
  then have bpos: "0 < b" by (simp add: zero_less_mult_iff)
  moreover have "b * ((1 - 1 / 2 ^ 53) * (1 - 1 / 2 ^ 53)) \<le> b" using bpos by (simp add: algebra_simps)
  ultimately have ab: "a < b" using gap by linarith
  have in30: "\<And>x. 1 / 2 ^ 30 \<le> x \<Longrightarrow> x \<le> 2 ^ 30 \<Longrightarrow> 1 / 2 ^ 64 \<le> (x::real) \<and> x \<le> 2 ^ 64"
    by simp
  have prod: "\<And>x. 1 / 2 ^ 30 \<le> x \<Longrightarrow> x \<le> 2 ^ 30 \<Longrightarrow>
       1 / 2 ^ 63 \<le> w * x * (1 - 1 / 2 ^ 53) \<and> w * x * (1 + 1 / 2 ^ 53) \<le> 2 ^ 63"
  proof -
    fix x :: real assume x: "1 / 2 ^ 30 \<le> x" "x \<le> 2 ^ 30"
    have "(1 / 2 ^ 30) * (1 / 2 ^ 30) \<le> w * x" using w x by (intro mult_mono) simp_all
    then have "(1 / 2 ^ 30) * (1 / 2 ^ 30) * (1 - 1 / 2 ^ 53) \<le> w * x * (1 - 1 / 2 ^ 53)"
      by (intro mult_right_mono) simp_all
    then have A: "1 / 2 ^ 63 \<le> w * x * (1 - 1 / 2 ^ 53)" by simp
    have "w * x \<le> 2 ^ 30 * 2 ^ 30" using w x wpos by (intro mult_mono) simp_all
    then have "w * x * (1 + 1 / 2 ^ 53) \<le> 2 ^ 30 * 2 ^ 30 * (1 + 1 / 2 ^ 53)"
      by (intro mult_right_mono) simp_all
    then have "w * x * (1 + 1 / 2 ^ 53) \<le> 2 ^ 63" by simp
    with A show "1 / 2 ^ 63 \<le> w * x * (1 - 1 / 2 ^ 53) \<and> w * x * (1 + 1 / 2 ^ 53) \<le> 2 ^ 63" ..
  qed
  have a30: "1 / 2 ^ 30 \<le> a" "a \<le> 2 ^ 30" and b30: "1 / 2 ^ 30 \<le> b" "b \<le> 2 ^ 30"
    using a b ab by simp_all
  from js_mul_normal [of w a] in30 [OF w] in30 [OF a30]
  obtain ra where ra: "js_mul (Finite False w) (Finite False a) = Finite False ra"
    "w * a * (1 - 1 / 2 ^ 53) \<le> ra" "ra \<le> w * a * (1 + 1 / 2 ^ 53)" by auto
  from js_mul_normal [of w b] in30 [OF w] in30 [OF b30]
  obtain rb where rb: "js_mul (Finite False w) (Finite False b) = Finite False rb"
    "w * b * (1 - 1 / 2 ^ 53) \<le> rb" "rb \<le> w * b * (1 + 1 / 2 ^ 53)" by auto
  have ra64: "1 / 2 ^ 64 \<le> ra" "ra \<le> 2 ^ 64" using prod [OF a30] ra(2,3) by simp_all
  have rb64: "1 / 2 ^ 64 \<le> rb" "rb \<le> 2 ^ 64" using prod [OF b30] rb(2,3) by simp_all
  from js_mul_normal [OF ra64 k]
  obtain sa where sa: "js_mul (Finite False ra) (Finite False k) = Finite False sa"
    "sa \<le> ra * k * (1 + 1 / 2 ^ 53)" by auto
  from js_mul_normal [OF rb64 k]
  obtain sb where sb: "js_mul (Finite False rb) (Finite False k) = Finite False sb"
    "rb * k * (1 - 1 / 2 ^ 53) \<le> sb" by auto
  have "ra * (k * (1 + 1 / 2 ^ 53)) \<le> w * a * (1 + 1 / 2 ^ 53) * (k * (1 + 1 / 2 ^ 53))"
    using ra(3) kpos by (intro mult_right_mono) simp_all
  then have up: "sa \<le> (w * k) * (a * ((1 + 1 / 2 ^ 53) * (1 + 1 / 2 ^ 53)))"
    using sa(2) by (simp add: mult_ac)
  have "w * b * (1 - 1 / 2 ^ 53) * (k * (1 - 1 / 2 ^ 53)) \<le> rb * (k * (1 - 1 / 2 ^ 53))"
    using rb(2) kpos by (intro mult_right_mono) simp_all
  then have dn: "(w * k) * (b * ((1 - 1 / 2 ^ 53) * (1 - 1 / 2 ^ 53))) \<le> sb"
    using sb(2) by (simp add: mult_ac)
  have "0 < w * k" using wpos kpos by simp
  from mult_strict_left_mono [OF gap this] up dn have "sa < sb" by linarith
  then show ?thesis unfolding ra(1) rb(1) sa(1) sb(1) by (simp add: js_lt_def signed_def)
qed

section \<open>Properties\<close>

text \<open>
  Claim C1.  For every record of inputs the computation returns exactly the eight
  quantities of the specification's formula chain, each later quantity computed from the
  earlier ones as they are (no rounding for display enters the chain).
\<close>

theorem calculations_formula_chain:
  "calculations i =
     \<lparr> frontalAreaA = spec_frontalArea i,
       airVelocityV = spec_airVelocity i,
       residenceTimeTau = spec_residenceTime i,
       hourlyCo2CaptureRateY = spec_hourlyCo2CaptureRate i,
       requiredSorbentMass = spec_requiredSorbentMass i,
       totalWeeklyCo2Capture = spec_totalWeeklyCo2Capture i,
       totalFilterWeight = spec_totalFilterWeight i,
       weeklyCartridgeSwaps = spec_weeklyCartridgeSwaps i \<rparr>"
  by (simp add: calculations_def Let_def spec_frontalArea_def spec_airVelocity_def
      spec_residenceTime_def spec_hourlyCo2CaptureRate_def spec_totalWeeklyCo2Capture_def
      spec_requiredSorbentMass_def spec_totalFilterWeight_def spec_weeklyCartridgeSwaps_def)

text \<open>
  Claim C2, as the specification states it, fails.  With the presets of
  \<open>heavy_use_inputs\<close> the value of \<open>weeklyCartridgeSwaps\<close> is at least 2 and below 3, and
  the class computed for the display is \<open>bad\<close>, not \<open>okay\<close>; likewise the number 2.999
  is classified \<open>bad\<close> and 0.999 is classified \<open>good\<close>.
\<close>

theorem swaps_class_counterexample:
  "presets heavy_use_inputs \<and>
   js_ge (weeklyCartridgeSwaps (calculations heavy_use_inputs)) (js_lit 2) \<and>
   js_lt (weeklyCartridgeSwaps (calculations heavy_use_inputs)) (js_lit 3) \<and>
   statusClass (calculations heavy_use_inputs) = ''bad'' \<and>
   displayed_class (js_lit (2999 / 1000)) = ''bad'' \<and>
   displayed_class (js_lit (999 / 1000)) = ''good''"
proof -
  have "presets heavy_use_inputs"
    by (simp add: presets_def heavy_use_inputs_def initial_inputs_def)
  moreover have "js_ge (weeklyCartridgeSwaps (calculations heavy_use_inputs)) (js_lit 2)"
    and "js_lt (weeklyCartridgeSwaps (calculations heavy_use_inputs)) (js_lit 3)"
    unfolding calculations_heavy_use js_lit_123 by (simp_all add: js_ge_def js_lt_def signed_def)
  moreover have "statusClass (calculations heavy_use_inputs) = ''bad''"
    unfolding statusClass_def calculations_heavy_use by (simp add: displayed_class_raw)
  moreover have "displayed_class (js_lit (2999 / 1000)) = ''bad''"
    and "displayed_class (js_lit (999 / 1000)) = ''good''"
    unfolding js_lit_points by (simp_all add: displayed_class_raw)
  ultimately show ?thesis by simp
qed

text \<open>
  Claim C2, amended.  \<open>getStatusClass\<close> is the four-band step function of the
  specification on the value it is given, and the value it is given for the headline
  output is \<open>weeklyCartridgeSwaps\<close> rounded to one decimal place (half up): the class of
  the display is the four-band step function of that rounded value.
\<close>

theorem swaps_class_of_rounded_value:
  assumes "0 \<le> r"
  shows "getStatusClass (Num (Finite False r)) = spec_classify r \<and>
         displayed_class (Finite False r) = spec_classify (of_int \<lfloor>r * 10 + 1 / 2\<rfloor> / 10)"
proof -
  have "30 \<le> \<lfloor>r * 10 + 1 / 2\<rfloor> \<longleftrightarrow> 295 / 100 \<le> r"
    "20 \<le> \<lfloor>r * 10 + 1 / 2\<rfloor> \<longleftrightarrow> 195 / 100 \<le> r"
    "10 \<le> \<lfloor>r * 10 + 1 / 2\<rfloor> \<longleftrightarrow> 95 / 100 \<le> r"
    by linarith+
  then have "displayed_class (Finite False r) = spec_classify (of_int \<lfloor>r * 10 + 1 / 2\<rfloor> / 10)"
    using assms by (simp add: displayed_class_raw spec_classify_def)
  moreover have "getStatusClass (Num (Finite False r)) = spec_classify r"
    by (simp add: getStatusClass_Num spec_classify_def)
  ultimately show ?thesis by simp
qed

theorem swaps_class_of_rounded_value_witness:
  "displayed_class (js_lit 3) = ''bad'' \<and>
   displayed_class (js_lit (2949 / 1000)) = ''okay'' \<and>
   displayed_class (js_lit 1) = ''good'' \<and>
   displayed_class (js_lit (949 / 1000)) = ''great'' \<and>
   displayed_class (js_lit 0) = ''great'' \<and>
   getStatusClass (Num (js_lit (2999 / 1000))) = ''okay''"
  unfolding js_lit_123 js_lit_points
  using swaps_class_of_rounded_value [of 3]
    swaps_class_of_rounded_value [of "1660139412639449 / 562949953421312"]
    swaps_class_of_rounded_value [of 1]
    swaps_class_of_rounded_value [of "8547832092749201 / 9007199254740992"]
    swaps_class_of_rounded_value [of 0]
    swaps_class_of_rounded_value [of "6753147641242059 / 2251799813685248"]
  by (simp add: spec_classify_def)

text \<open>
  Claim C3.  The class rendered for the headline output is computed from
  \<open>weeklyCartridgeSwaps\<close> rounded to one decimal place, so the boundaries between the
  bands lie at 2.95, 1.95 and 0.95 of the raw value; every raw value from 2.95 up to 3 is
  displayed as \<open>bad\<close>.
\<close>

theorem status_boundaries_of_raw_value:
  assumes "weeklyCartridgeSwaps c = Finite False r" and "0 \<le> r"
  shows "statusClass c =
     (if 295 / 100 \<le> r then ''bad'' else if 195 / 100 \<le> r then ''okay''
      else if 95 / 100 \<le> r then ''good'' else ''great'')"
  using assms by (simp add: statusClass_def displayed_class_raw)

theorem status_boundaries_of_raw_value_witness:
  "weeklyCartridgeSwaps (calculations heavy_use_inputs) =
     Finite False (1687730997231511 / 562949953421312) \<and>
   (295 / 100 :: real) \<le> 1687730997231511 / 562949953421312 \<and>
   (1687730997231511 / 562949953421312 :: real) < 3 \<and>
   statusClass (calculations heavy_use_inputs) = ''bad''"
proof -
  have h: "weeklyCartridgeSwaps (calculations heavy_use_inputs) =
      Finite False (1687730997231511 / 562949953421312)"
    by (simp add: calculations_heavy_use)
  from status_boundaries_of_raw_value [OF h] h show ?thesis by simp
qed

text \<open>
  Claim C4, as the specification states it, fails: read to the digits written, five of
  its eight values are not the values computed for the initial inputs.  The hourly
  capture rate is not 0.02133 to five places, the weekly capture is not 0.8960 to four
  places, the sorbent mass is not 11.20 and the filter weight is not 16.00 to two places,
  and the number of swaps is not 1.600 to three places.
\<close>

theorem default_scenario_counterexample:
  "\<not> agrees 5 (2133 / 100000) (hourlyCo2CaptureRateY (calculations initial_inputs)) \<and>
   \<not> agrees 4 (8960 / 10000) (totalWeeklyCo2Capture (calculations initial_inputs)) \<and>
   \<not> agrees 2 (1120 / 100) (requiredSorbentMass (calculations initial_inputs)) \<and>
   \<not> agrees 2 (1600 / 100) (totalFilterWeight (calculations initial_inputs)) \<and>
   \<not> agrees 3 (1600 / 1000) (weeklyCartridgeSwaps (calculations initial_inputs))"
  by (simp add: calculations_initial agrees_def signed_def)

text \<open>
  Claim C4, amended.  For the initial inputs the computation yields, to the digits
  written, a frontal area of 0.2581, an air velocity of 1.821, a residence time of 0.0549,
  an hourly capture rate of 0.02132, a weekly capture of 0.8954, a sorbent mass of 11.19,
  a filter weight of 15.99 and 1.599 swaps per week, and the class displayed is \<open>good\<close>.
\<close>

theorem default_scenario_values:
  "agrees 4 (2581 / 10000) (frontalAreaA (calculations initial_inputs)) \<and>
   agrees 3 (1821 / 1000) (airVelocityV (calculations initial_inputs)) \<and>
   agrees 4 (549 / 10000) (residenceTimeTau (calculations initial_inputs)) \<and>
   agrees 5 (2132 / 100000) (hourlyCo2CaptureRateY (calculations initial_inputs)) \<and>
   agrees 4 (8954 / 10000) (totalWeeklyCo2Capture (calculations initial_inputs)) \<and>
   agrees 2 (1119 / 100) (requiredSorbentMass (calculations initial_inputs)) \<and>
   agrees 2 (1599 / 100) (totalFilterWeight (calculations initial_inputs)) \<and>
   agrees 3 (1599 / 1000) (weeklyCartridgeSwaps (calculations initial_inputs)) \<and>
   statusClass (calculations initial_inputs) = ''good''"
  by (simp add: calculations_initial agrees_def signed_def statusClass_def displayed_class_raw)

text \<open>
  Claim C5.  For every selection of presets each of the eight derived outputs is a finite
  number, and no divisor of the chain (frontal area, air velocity, working capacity, mass
  fraction, cartridge weight) is zero.  The computation has no loop and no recursion, so
  it always returns.
\<close>

theorem calculations_finite_on_presets:
  assumes "presets i"
  shows "is_finite (frontalAreaA (calculations i)) \<and>
         is_finite (airVelocityV (calculations i)) \<and>
         is_finite (residenceTimeTau (calculations i)) \<and>
         is_finite (hourlyCo2CaptureRateY (calculations i)) \<and>
         is_finite (totalWeeklyCo2Capture (calculations i)) \<and>
         is_finite (requiredSorbentMass (calculations i)) \<and>
         is_finite (totalFilterWeight (calculations i)) \<and>
         is_finite (weeklyCartridgeSwaps (calculations i)) \<and>
         \<not> is_zero (frontalAreaA (calculations i)) \<and>
         \<not> is_zero (airVelocityV (calculations i)) \<and>
         \<not> is_zero (sorbentWorkingCapacityCw i) \<and>
         \<not> is_zero (sorbentMassFraction i) \<and>
         \<not> is_zero (maxCartridgeWeight i)"
proof -
  have fin: "\<And>lo hi x. in_range lo hi x \<Longrightarrow> is_finite x"
    by (auto simp: in_range_def is_finite_def split: number.splits)
  have nz: "\<And>lo hi x. in_range lo hi x \<Longrightarrow> 0 < lo \<Longrightarrow> \<not> is_zero x"
    by (auto simp: in_range_def is_zero_def split: number.splits)
  note c = calculations_ranges [OF assms] and p = preset_ranges [OF assms]
  have "is_finite (frontalAreaA (calculations i))" by (rule fin [OF c(1)])
  moreover have "is_finite (airVelocityV (calculations i))" by (rule fin [OF c(2)])
  moreover have "is_finite (residenceTimeTau (calculations i))" by (rule fin [OF c(3)])
  moreover have "is_finite (hourlyCo2CaptureRateY (calculations i))" by (rule fin [OF c(4)])
  moreover have "is_finite (totalWeeklyCo2Capture (calculations i))" by (rule fin [OF c(5)])
  moreover have "is_finite (requiredSorbentMass (calculations i))" by (rule fin [OF c(6)])
  moreover have "is_finite (totalFilterWeight (calculations i))" by (rule fin [OF c(7)])
  moreover have "is_finite (weeklyCartridgeSwaps (calculations i))" by (rule fin [OF c(8)])
  moreover have "\<not> is_zero (frontalAreaA (calculations i))" by (rule nz [OF c(1)]) simp
  moreover have "\<not> is_zero (airVelocityV (calculations i))" by (rule nz [OF c(2)]) simp
  moreover have "\<not> is_zero (sorbentWorkingCapacityCw i)" by (rule nz [OF p(7)]) simp
  moreover have "\<not> is_zero (sorbentMassFraction i)" by (rule nz [OF p(9)]) simp
  moreover have "\<not> is_zero (maxCartridgeWeight i)" by (rule nz [OF p(10)]) simp
  ultimately show ?thesis by blast
qed

theorem calculations_finite_on_presets_witness:
  "presets heavy_use_inputs \<and>
   is_finite (weeklyCartridgeSwaps (calculations heavy_use_inputs)) \<and>
   \<not> is_zero (airVelocityV (calculations heavy_use_inputs))"
proof -
  have h: "presets heavy_use_inputs"
    by (simp add: presets_def heavy_use_inputs_def initial_inputs_def)
  from calculations_finite_on_presets [OF h] h show ?thesis by blast
qed

text \<open>
  Claim C6.  The result of the computation is determined by the state variables alone:
  whatever sequences of selections led there, two components whose state variables are
  the same values render the same eight outputs.  The memo cell, the only state besides
  the variables, never changes the result.
\<close>

theorem calculations_deterministic:
  "vars (run evs) = vars (run evs') \<Longrightarrow> fst (render (run evs)) = fst (render (run evs'))"
  by (simp add: render_run)

theorem calculations_deterministic_witness:
  "vars (run [SetFilterWidth (js_lit 25), SetFilterWidth (js_lit 20)]) = vars (run []) \<and>
   fst (render (run [SetFilterWidth (js_lit 25), SetFilterWidth (js_lit 20)])) = fst (render (run []))"
proof -
  have "vars (run ([SetFilterWidth (js_lit 25)] @ [SetFilterWidth (js_lit 20)])) = vars (run [])"
    unfolding vars_run_snoc
    using vars_run_snoc [of "[]" "SetFilterWidth (js_lit 25)"]
    by (simp add: vars_run_Nil initial_inputs_def)
  then have h: "vars (run [SetFilterWidth (js_lit 25), SetFilterWidth (js_lit 20)]) = vars (run [])"
    by simp
  from h calculations_deterministic [OF h] show ?thesis by simp
qed

text \<open>
  Claim C7.  With the other inputs fixed at presets, a larger preset for the maximal
  cartridge weight gives a strictly smaller number of weekly cartridge swaps.
\<close>

theorem swaps_decrease_with_cartridge_weight:
  assumes "presets i"
    and "a \<in> set [js_lit 10, js_lit (125 / 10), js_lit 15]"
    and "b \<in> set [js_lit 10, js_lit (125 / 10), js_lit 15]"
    and "js_lt a b"
  shows "js_lt (weeklyCartridgeSwaps (calculations (i\<lparr>maxCartridgeWeight := b\<rparr>)))
               (weeklyCartridgeSwaps (calculations (i\<lparr>maxCartridgeWeight := a\<rparr>)))"
proof -
  define W where "W = totalFilterWeight (calculations i)"
  have eq: "\<And>x. weeklyCartridgeSwaps (calculations (i\<lparr>maxCartridgeWeight := x\<rparr>)) = js_div W x"
    by (simp add: W_def calculations_def Let_def)
  from calculations_ranges(7) [OF assms(1)]
  obtain w where w: "W = Finite False w" "6 \<le> w" "w \<le> 99"
    unfolding W_def by (rule in_rangeE)
  from assms(2) have "\<exists>v. a = Finite False v \<and> (v = 10 \<or> v = 25 / 2 \<or> v = 15)"
    unfolding js_lit_values by auto
  then obtain av where av: "a = Finite False av" "av = 10 \<or> av = 25 / 2 \<or> av = 15"
    by blast
  from assms(3) have "\<exists>v. b = Finite False v \<and> (v = 10 \<or> v = 25 / 2 \<or> v = 15)"
    unfolding js_lit_values by auto
  then obtain bv where bv: "b = Finite False bv" "bv = 10 \<or> bv = 25 / 2 \<or> bv = 15"
    by blast
  from assms(4) have "av < bv" by (simp add: av(1) bv(1) js_lt_def signed_def)
  with av(2) bv(2) have gap: "av * (1 + 1 / 2 ^ 53) < bv * (1 - 1 / 2 ^ 53)"
    and r: "1 / 2 ^ 64 \<le> av" "bv \<le> 2 ^ 64" by auto
  have "js_lt (js_div (Finite False w) (Finite False bv)) (js_div (Finite False w) (Finite False av))"
    using w(2,3) by (intro js_div_strict_antimono r gap) simp_all
  then show ?thesis unfolding eq w(1) av(1) bv(1) .
qed

theorem swaps_decrease_with_cartridge_weight_witness:
  "presets initial_inputs \<and> js_lt (js_lit 10) (js_lit 15) \<and>
   js_lt (weeklyCartridgeSwaps (calculations (initial_inputs\<lparr>maxCartridgeWeight := js_lit 15\<rparr>)))
         (weeklyCartridgeSwaps (calculations (initial_inputs\<lparr>maxCartridgeWeight := js_lit 10\<rparr>)))"
proof -
  have p: "presets initial_inputs" by (simp add: presets_def initial_inputs_def)
  have a: "js_lit 10 \<in> set [js_lit 10, js_lit (125 / 10), js_lit 15]"
    and b: "js_lit 15 \<in> set [js_lit 10, js_lit (125 / 10), js_lit 15]" by simp_all
  have l: "js_lt (js_lit 10) (js_lit 15)"
    unfolding js_lit_values by (simp add: js_lt_def signed_def)
  from swaps_decrease_with_cartridge_weight [OF p a b l] p l show ?thesis by blast
qed

text \<open>
  Claim C8.  With the other inputs fixed at presets, a larger preset for the sorbent
  capture efficiency gives a strictly larger hourly capture rate.
\<close>

theorem capture_rate_increases_with_efficiency:
  assumes "presets i"
    and "a \<in> set [js_lit (18 / 1000), js_lit (22 / 1000), js_lit (25 / 1000)]"
    and "b \<in> set [js_lit (18 / 1000), js_lit (22 / 1000), js_lit (25 / 1000)]"
    and "js_lt a b"
  shows "js_lt (hourlyCo2CaptureRateY (calculations (i\<lparr>sorbentCaptureEfficiencyEta := a\<rparr>)))
               (hourlyCo2CaptureRateY (calculations (i\<lparr>sorbentCaptureEfficiencyEta := b\<rparr>)))"
proof -
  define P where "P = js_mul (airflowQ i) (initialCo2ConcentrationCin i)"
  have eq: "\<And>x. hourlyCo2CaptureRateY (calculations (i\<lparr>sorbentCaptureEfficiencyEta := x\<rparr>)) =
      js_mul (js_mul P x) (js_lit 3600)"
    by (simp add: P_def calculations_def Let_def)
  from flow_concentration_range [OF assms(1)]
  obtain w where w: "P = Finite False w" "27 / 100000 \<le> w" "w \<le> 68 / 100000"
    unfolding P_def by (rule in_rangeE)
  from assms(2) have "\<exists>v. a = Finite False v \<and>
     (v = 5188146770730811 / 288230376151711744 \<or> v = 3170534137668829 / 144115188075855872 \<or>
      v = 3602879701896397 / 144115188075855872)"
    unfolding js_lit_values by auto
  then obtain av where av: "a = Finite False av"
    "av = 5188146770730811 / 288230376151711744 \<or> av = 3170534137668829 / 144115188075855872 \<or>
     av = 3602879701896397 / 144115188075855872"
    by blast
  from assms(3) have "\<exists>v. b = Finite False v \<and>
     (v = 5188146770730811 / 288230376151711744 \<or> v = 3170534137668829 / 144115188075855872 \<or>
      v = 3602879701896397 / 144115188075855872)"
    unfolding js_lit_values by auto
  then obtain bv where bv: "b = Finite False bv"
    "bv = 5188146770730811 / 288230376151711744 \<or> bv = 3170534137668829 / 144115188075855872 \<or>
     bv = 3602879701896397 / 144115188075855872"
    by blast
  from assms(4) have "av < bv" by (simp add: av(1) bv(1) js_lt_def signed_def)
  with av(2) bv(2) have
    gap: "av * ((1 + 1 / 2 ^ 53) * (1 + 1 / 2 ^ 53)) < bv * ((1 - 1 / 2 ^ 53) * (1 - 1 / 2 ^ 53))"
    and r: "1 / 2 ^ 30 \<le> av" "bv \<le> 2 ^ 30" by auto
  have "js_lt (js_mul (js_mul (Finite False w) (Finite False av)) (Finite False 3600))
              (js_mul (js_mul (Finite False w) (Finite False bv)) (Finite False 3600))"
    using w(2,3) by (intro js_mul_mul_strict_mono r gap) simp_all
  then show ?thesis unfolding eq w(1) av(1) bv(1) js_lit_values .
qed

theorem capture_rate_increases_with_efficiency_witness:
  "presets initial_inputs \<and> js_lt (js_lit (18 / 1000)) (js_lit (25 / 1000)) \<and>
   js_lt (hourlyCo2CaptureRateY
            (calculations (initial_inputs\<lparr>sorbentCaptureEfficiencyEta := js_lit (18 / 1000)\<rparr>)))
         (hourlyCo2CaptureRateY
            (calculations (initial_inputs\<lparr>sorbentCaptureEfficiencyEta := js_lit (25 / 1000)\<rparr>)))"
proof -
  have p: "presets initial_inputs" by (simp add: presets_def initial_inputs_def)
  have a: "js_lit (18 / 1000) \<in> set [js_lit (18 / 1000), js_lit (22 / 1000), js_lit (25 / 1000)]"
    and b: "js_lit (25 / 1000) \<in> set [js_lit (18 / 1000), js_lit (22 / 1000), js_lit (25 / 1000)]"
    by simp_all
  have l: "js_lt (js_lit (18 / 1000)) (js_lit (25 / 1000))"
    unfolding js_lit_values by (simp add: js_lt_def signed_def)
  from capture_rate_increases_with_efficiency [OF p a b l] p l show ?thesis by blast
qed

text \<open>
  Claim C9.  Changing only the filter width of the initial inputs from 20 to 25 strictly
  lowers the air velocity, the one quantity that scales inversely with the frontal area,
  and leaves the hourly capture rate and the weekly capture exactly as they were.
\<close>

theorem wider_filter_lowers_air_velocity:
  "js_lt (airVelocityV (calculations wide_inputs)) (airVelocityV (calculations initial_inputs)) \<and>
   hourlyCo2CaptureRateY (calculations wide_inputs) =
     hourlyCo2CaptureRateY (calculations initial_inputs) \<and>
   totalWeeklyCo2Capture (calculations wide_inputs) =
     totalWeeklyCo2Capture (calculations initial_inputs)"
  by (simp add: calculations_wide calculations_initial js_lt_def signed_def)

text \<open>
  Claim C10.  The eight derived outputs do not depend on \<open>maxStaticPressure\<close>: replacing
  that field by any value leaves the result of the computation unchanged.
\<close>

theorem calculations_ignore_maxStaticPressure:
  "calculations (i\<lparr>maxStaticPressure := p\<rparr>) = calculations i"
  by (simp add: calculations_def)

end
